theory Spec2Isabelle
  imports Complex_Main
begin

section \<open>Data model\<close>

text \<open>
  The solver class of \<open>src/polynomial.jsx\<close> throws \<open>Error\<close> objects that differ in
  their message only. Each throw site is one constructor here, in the order of the
  source. \<open>RangeError_DivisionByZero\<close> is the RangeError that a BigInt division or
  remainder by \<open>0n\<close> raises in JavaScript; the source never throws it itself.
\<close>

datatype error =
    InvalidDigit              \<comment> \<open>getDigitValue: "Invalid digit"\<close>
  | UnsupportedDigit char     \<comment> \<open>getDigitValue: "Unsupported digit character"\<close>
  | InvalidBase               \<comment> \<open>convertToDecimalBigInt: "Base must be integer in range 2..62"\<close>
  | EmptyValue                \<comment> \<open>convertToDecimalBigInt: "Empty value string"\<close>
  | DigitOutOfRange char      \<comment> \<open>convertToDecimalBigInt: "Digit ... invalid for base"\<close>
  | NoPoints                  \<comment> \<open>findConstantTerm: "No points provided for interpolation"\<close>
  | DuplicateX                \<comment> \<open>findConstantTerm, evaluateAt: "Duplicate x values encountered"\<close>
  | InternalDenominatorZero   \<comment> \<open>findConstantTerm, evaluateAt: "Internal math error"\<close>
  | NonIntegerConstantTerm    \<comment> \<open>findConstantTerm: "Constant term is not an integer"\<close>
  | NonIntegerEvaluation      \<comment> \<open>evaluateAt: "Non-integer evaluation at x=..."\<close>
  | MissingKeys               \<comment> \<open>solve: "Invalid input JSON: missing keys"\<close>
  | KeysNotIntegers           \<comment> \<open>solve: "keys.n and keys.k must be integers"\<close>
  | InvalidXKey               \<comment> \<open>solve: "Invalid x key"\<close>
  | BadPointFormat            \<comment> \<open>solve: "Bad point format at key"\<close>
  | InsufficientPoints        \<comment> \<open>solve: "Need at least k=... points"\<close>
  | DuplicateSelected         \<comment> \<open>solve: "Duplicate x-values found in selected points"\<close>
  | VerificationFailed        \<comment> \<open>solve: "Polynomial determined from selected points does not match ..."\<close>
  | RangeError_DivisionByZero \<comment> \<open>the runtime's error for BigInt \<open>/\<close> and \<open>%\<close> by zero\<close>

text \<open>
  A JavaScript Number as far as the solver looks at it: \<open>Number.isInteger\<close> holds exactly
  for \<open>Integer i\<close>; \<open>NonInteger\<close> stands for every other Number (NaN, a fraction, an
  infinity). A point is \<open>{ x, y }\<close> with \<open>x\<close> an integer Number and \<open>y\<close> a BigInt; the
  fields are named \<open>px\<close> and \<open>py\<close>.
\<close>

datatype number = Integer int | NonInteger

record point =
  px :: int
  py :: int

text \<open>
  The object \<open>data.keys\<close> with its members \<open>n\<close> and \<open>k\<close>; \<open>None\<close> is a member that is
  absent or not a Number. An entry is one member of \<open>data\<close> other than \<open>keys\<close>:
  \<open>entry_key\<close> is \<open>Number(key)\<close>, \<open>entry_base\<close> is \<open>Number(base)\<close> (\<open>None\<close> when \<open>base\<close> is
  undefined) and \<open>entry_value\<close> is \<open>value\<close> (\<open>None\<close> when it is not a string). The entries
  come in the order of \<open>Object.keys(data)\<close>.
\<close>

datatype keys_object = Keys (keys_n: "number option") (keys_k: "number option")

record entry =
  entry_key :: number
  entry_base :: "number option"
  entry_value :: "string option"

record dataset =
  keys :: "keys_object option"
  entries :: "entry list"

record result =
  constantTerm :: int
  selectedPoints :: "point list"
  allPoints :: "point list"

section \<open>Digit codec and based-integer decoder\<close>

text \<open>
  \<open>getDigitValue\<close> is applied to \<open>value[i]\<close>, a string of length one, so its first
  throw ("Invalid digit") has no branch here: the argument is a single character.
\<close>

definition getDigitValue :: "char \<Rightarrow> error + nat" where
  "getDigitValue ch =
     (let code = (of_char ch :: nat) in
      if code \<ge> 48 \<and> code \<le> 57 then Inr (code - 48)
      else if code \<ge> 97 \<and> code \<le> 122 then Inr (10 + (code - 97))
      else if code \<ge> 65 \<and> code \<le> 90 then Inr (36 + (code - 65))
      else Inl (UnsupportedDigit ch))"

text \<open>The \<open>for\<close> loop of \<open>convertToDecimalBigInt\<close> over the characters left to read.\<close>

fun convert_loop :: "int \<Rightarrow> string \<Rightarrow> int \<Rightarrow> error + int" where
  "convert_loop baseNum [] res = Inr res"
| "convert_loop baseNum (c # cs) res =
     (case getDigitValue c of
        Inl e \<Rightarrow> Inl e
      | Inr digit \<Rightarrow>
          if int digit \<ge> baseNum then Inl (DigitOutOfRange c)
          else convert_loop baseNum cs (res * baseNum + int digit))"

definition convertToDecimalBigInt :: "string \<Rightarrow> number \<Rightarrow> error + int" where
  "convertToDecimalBigInt val base =
     (case base of
        NonInteger \<Rightarrow> Inl InvalidBase
      | Integer baseNum \<Rightarrow>
          if baseNum < 2 \<or> baseNum > 62 then Inl InvalidBase
          else if length val = 0 then Inl EmptyValue
          else convert_loop baseNum val 0)"

section \<open>BigInt division and the gcd helper\<close>

text \<open>
  BigInt \<open>/\<close> truncates towards zero and \<open>%\<close> takes the sign of the dividend; both raise
  a RangeError on a zero divisor.
\<close>

definition bigint_div :: "int \<Rightarrow> int \<Rightarrow> error + int" where
  "bigint_div a b =
     (if b = 0 then Inl RangeError_DivisionByZero
      else Inr (sgn a * sgn b * (\<bar>a\<bar> div \<bar>b\<bar>)))"

definition bigint_rem :: "int \<Rightarrow> int \<Rightarrow> error + int" where
  "bigint_rem a b =
     (if b = 0 then Inl RangeError_DivisionByZero
      else Inr (sgn a * (\<bar>a\<bar> mod \<bar>b\<bar>)))"

text \<open>The \<open>while (b !== 0n)\<close> loop of \<open>gcdBig\<close>.\<close>

function gcd_loop :: "int \<Rightarrow> int \<Rightarrow> error + int" where
  "gcd_loop a b =
     (if b \<noteq> 0 then
        (case bigint_rem a b of
           Inl e \<Rightarrow> Inl e
         | Inr r \<Rightarrow> gcd_loop b r)
      else Inr a)"
  by pat_completeness auto
termination
  by (relation "measure (\<lambda>(a, b). nat \<bar>b\<bar>)")
     (auto simp: bigint_rem_def abs_mult split: if_splits)

definition gcdBig :: "int \<Rightarrow> int \<Rightarrow> error + int" where
  "gcdBig a b =
     (let a' = (if a < 0 then - a else a);
          b' = (if b < 0 then - b else b)
      in gcd_loop a' b')"

section \<open>Interpolation engine\<close>

text \<open>
  \<open>findConstantTerm\<close> and \<open>evaluateAt\<close> run the same two nested loops and differ in the
  factor that the inner loop multiplies into \<open>termNum\<close>: \<open>-xj\<close> in the first,
  \<open>x0b - xj\<close> in the second. The loops are modelled once, with that factor as the
  parameter \<open>fac\<close>.

  \<open>term_step\<close> is one pass of the inner loop body for index \<open>j\<close>, and \<open>lagrange_term\<close>
  the whole inner loop for the outer index \<open>i\<close>, started from
  \<open>termNum = yi, termDen = 1n\<close>.
\<close>

definition term_step :: "(int \<Rightarrow> int) \<Rightarrow> point list \<Rightarrow> nat \<Rightarrow> nat \<Rightarrow> int \<times> int \<Rightarrow> int \<times> int" where
  "term_step fac points i j t =
     (if i = j then t
      else (fst t * fac (px (points ! j)), snd t * (px (points ! i) - px (points ! j))))"

definition lagrange_term :: "(int \<Rightarrow> int) \<Rightarrow> point list \<Rightarrow> nat \<Rightarrow> int \<times> int" where
  "lagrange_term fac points i =
     fold (term_step fac points i) [0..<length points] (py (points ! i), 1)"

text \<open>
  The addition of one term to the running sum, with the reduction by the gcd:
  the body of the outer loop after the inner loop.
\<close>

definition add_term :: "int \<times> int \<Rightarrow> int \<times> int \<Rightarrow> error + int \<times> int" where
  "add_term s t =
     (if snd t = 0 then Inl DuplicateX
      else
        let newNum = fst s * snd t + fst t * snd s;
            newDen = snd s * snd t
        in case gcdBig newNum newDen of
             Inl e \<Rightarrow> Inl e
           | Inr g \<Rightarrow>
               (case bigint_div newNum g of
                  Inl e \<Rightarrow> Inl e
                | Inr newNum' \<Rightarrow>
                    (case bigint_div newDen g of
                       Inl e \<Rightarrow> Inl e
                     | Inr newDen' \<Rightarrow> Inr (newNum', newDen'))))"

text \<open>
  The outer loop over the indices still to visit, from the running sum
  \<open>(sumNum, sumDen)\<close>; the source runs it over \<open>0, ..., k - 1\<close> from \<open>(0n, 1n)\<close>.
\<close>

fun sum_loop :: "(int \<Rightarrow> int) \<Rightarrow> point list \<Rightarrow> nat list \<Rightarrow> int \<times> int \<Rightarrow> error + int \<times> int" where
  "sum_loop fac points [] s = Inr s"
| "sum_loop fac points (i # is) s =
     (case add_term s (lagrange_term fac points i) of
        Inl e \<Rightarrow> Inl e
      | Inr s' \<Rightarrow> sum_loop fac points is s')"

text \<open>The end of both evaluators: the checks on the final sum and the exact division.\<close>

definition to_integer :: "error \<Rightarrow> int \<times> int \<Rightarrow> error + int" where
  "to_integer nonint s =
     (if snd s = 0 then Inl InternalDenominatorZero
      else case bigint_rem (fst s) (snd s) of
             Inl e \<Rightarrow> Inl e
           | Inr r \<Rightarrow> if r \<noteq> 0 then Inl nonint else bigint_div (fst s) (snd s))"

definition findConstantTerm :: "point list \<Rightarrow> error + int" where
  "findConstantTerm points =
     (let k = length points in
      if k = 0 then Inl NoPoints
      else case sum_loop (\<lambda>xj. - xj) points [0..<k] (0, 1) of
             Inl e \<Rightarrow> Inl e
           | Inr s \<Rightarrow> to_integer NonIntegerConstantTerm s)"

definition evaluateAt :: "int \<Rightarrow> point list \<Rightarrow> error + int" where
  "evaluateAt x0 points =
     (let k = length points in
      if k = 0 then Inr 0
      else case sum_loop (\<lambda>xj. x0 - xj) points [0..<k] (0, 1) of
             Inl e \<Rightarrow> Inl e
           | Inr s \<Rightarrow> to_integer NonIntegerEvaluation s)"

fun verifyAllPoints :: "point list \<Rightarrow> point list \<Rightarrow> error + bool" where
  "verifyAllPoints selected [] = Inr True"
| "verifyAllPoints selected (p # ps) =
     (case evaluateAt (px p) selected of
        Inl e \<Rightarrow> Inl e
      | Inr v \<Rightarrow> if v \<noteq> py p then Inr False else verifyAllPoints selected ps)"

section \<open>Solver pipeline\<close>

text \<open>
  The decoding loop of \<open>solve\<close> over the entries still to read; \<open>points\<close> is the array
  built so far and \<open>points.push\<close> appends at its end.
\<close>

fun decode_points :: "entry list \<Rightarrow> point list \<Rightarrow> error + point list" where
  "decode_points [] points = Inr points"
| "decode_points (e # es) points =
     (case entry_key e of
        NonInteger \<Rightarrow> Inl InvalidXKey
      | Integer x \<Rightarrow>
          (case entry_base e of
             None \<Rightarrow> Inl BadPointFormat
           | Some base \<Rightarrow>
               (case entry_value e of
                  None \<Rightarrow> Inl BadPointFormat
                | Some val \<Rightarrow>
                    (case convertToDecimalBigInt val base of
                       Inl err \<Rightarrow> Inl err
                     | Inr yBig \<Rightarrow> decode_points es (points @ [\<lparr>px = x, py = yBig\<rparr>])))))"

text \<open>
  \<open>points.slice(0, k)\<close>: a negative end counts from the end of the array, and an end
  beyond the length stops at the length.
\<close>

definition slice0 :: "int \<Rightarrow> 'a list \<Rightarrow> 'a list" where
  "slice0 k xs =
     (if k < 0 then take (nat (int (length xs) + k)) xs else take (nat k) xs)"

text \<open>
  \<open>solve\<close>, from the parsed object on. \<open>Array.prototype.sort\<close> is stable and the
  comparator orders by \<open>x\<close> ascending: \<open>sort_key px\<close>, the stable insertion sort. The
  size of \<open>new Set(selected.map(p => p.x))\<close> is the number of distinct \<open>x\<close> values.
\<close>

definition solve :: "dataset \<Rightarrow> error + result" where
  "solve data =
     (case keys data of
        None \<Rightarrow> Inl MissingKeys
      | Some ks \<Rightarrow>
          (case keys_n ks of
             Some (Integer n) \<Rightarrow>
               (case keys_k ks of
                  Some (Integer k) \<Rightarrow>
                    (case decode_points (entries data) [] of
                       Inl e \<Rightarrow> Inl e
                     | Inr decoded \<Rightarrow>
                         if int (length decoded) < k then Inl InsufficientPoints
                         else
                           let points = sort_key px decoded;
                               selected = slice0 k points
                           in if length (remdups (map px selected)) \<noteq> length selected
                              then Inl DuplicateSelected
                              else
                                (case findConstantTerm selected of
                                   Inl e \<Rightarrow> Inl e
                                 | Inr c \<Rightarrow>
                                     (case verifyAllPoints selected points of
                                        Inl e \<Rightarrow> Inl e
                                      | Inr ok \<Rightarrow>
                                          if \<not> ok then Inl VerificationFailed
                                          else Inr \<lparr>constantTerm = c,
                                                    selectedPoints = selected,
                                                    allPoints = points\<rparr>)))
                | _ \<Rightarrow> Inl KeysNotIntegers)
           | _ \<Rightarrow> Inl KeysNotIntegers))"

section \<open>Notions of the specification\<close>

text \<open>
  The digit alphabet of the specification, in the order of the digit values:
  \<open>'0'..'9'\<close> are 0..9, \<open>'a'..'z'\<close> are 10..35, \<open>'A'..'Z'\<close> are 36..61. \<open>digit_of\<close> is
  the position of a character in it, and \<open>positional_value b ds\<close> the value of the digit
  sequence \<open>ds\<close> in base \<open>b\<close>, most significant digit first.
\<close>

definition digit_alphabet :: string where
  "digit_alphabet = ''0123456789abcdefghijklmnopqrstuvwxyzABCDEFGHIJKLMNOPQRSTUVWXYZ''"

definition digit_of :: "char \<Rightarrow> nat option" where
  "digit_of c = map_of (zip digit_alphabet [0..<length digit_alphabet]) c"

definition positional_value :: "int \<Rightarrow> nat list \<Rightarrow> int" where
  "positional_value b ds = (\<Sum>i<length ds. int (ds ! i) * b ^ (length ds - 1 - i))"


section \<open>Notions of the proofs\<close>



definition lagrange_sum :: "nat \<Rightarrow> (nat \<Rightarrow> real) \<Rightarrow> (nat \<Rightarrow> real) \<Rightarrow> real \<Rightarrow> real" where
  "lagrange_sum k xs ys x =
     (\<Sum>i<k. ys i * (\<Prod>j\<in>{..<k} - {i}. (x - xs j)) / (\<Prod>j\<in>{..<k} - {i}. (xs i - xs j)))"

definition term_num :: "(int \<Rightarrow> int) \<Rightarrow> point list \<Rightarrow> nat \<Rightarrow> int" where
  "term_num fac pts i = py (pts ! i) * (\<Prod>j\<in>{..<length pts} - {i}. fac (px (pts ! j)))"

definition term_den :: "point list \<Rightarrow> nat \<Rightarrow> int" where
  "term_den pts i = (\<Prod>j\<in>{..<length pts} - {i}. (px (pts ! i) - px (pts ! j)))"

section \<open>Example datasets\<close>

text \<open>
  An entry \<open>"x": {"base": b, "value": v}\<close> of the input object and the object
  \<open>"keys": {"n": n, "k": k}\<close> with integer members, after \<open>Number(key)\<close> and
  \<open>Number(base)\<close>. \<open>example_input\<close> is the end-to-end example of the specification and
  the first default test case of the source, \<open>base40_input\<close> the third one.
\<close>

definition point_entry :: "int \<Rightarrow> int \<Rightarrow> string \<Rightarrow> entry" where
  "point_entry x base val =
     \<lparr>entry_key = Integer x, entry_base = Some (Integer base), entry_value = Some val\<rparr>"

definition int_keys :: "int \<Rightarrow> int \<Rightarrow> keys_object option" where
  "int_keys n k = Some (Keys (Some (Integer n)) (Some (Integer k)))"

definition example_input :: dataset where
  "example_input =
     \<lparr>keys = int_keys 4 3,
      entries = [point_entry 1 10 ''4'', point_entry 2 2 ''111'',
                 point_entry 3 10 ''12'', point_entry 6 4 ''213'']\<rparr>"







definition negative_k_input :: dataset where
  "negative_k_input =
     \<lparr>keys = int_keys 0 (- 1),
      entries = [point_entry 1 10 ''1'', point_entry 2 10 ''2'', point_entry 3 10 ''3'']\<rparr>"

definition zero_k_input :: dataset where
  "zero_k_input =
     \<lparr>keys = int_keys 3 0,
      entries = [point_entry 1 10 ''1'', point_entry 2 10 ''2'', point_entry 3 10 ''3'']\<rparr>"

definition base40_input :: dataset where
  "base40_input =
     \<lparr>keys = int_keys 3 3,
      entries = [point_entry 1 40 ''1A'', point_entry 2 10 ''456'', point_entry 3 10 ''789'']\<rparr>"

definition unordered_input :: dataset where
  "unordered_input =
     \<lparr>keys = int_keys 3 2,
      entries = [point_entry 2 10 ''10'', point_entry 7 16 ''f'', point_entry (- 3) 2 ''101'']\<rparr>"



section \<open>The decoder\<close>

lemma digit_table:
  "list_all (\<lambda>(c, d). getDigitValue c = Inr d) (zip digit_alphabet [0..<length digit_alphabet])"
  by code_simp

lemma getDigitValue_digit_of: "digit_of c = Some d \<Longrightarrow> getDigitValue c = Inr d"
proof -
  assume "digit_of c = Some d"
  then have "(c, d) \<in> set (zip digit_alphabet [0..<length digit_alphabet])"
    unfolding digit_of_def by (rule map_of_SomeD)
  with digit_table show ?thesis
    unfolding list_all_iff by blast
qed

lemma positional_value_Cons:
  "positional_value b (d # ds) = int d * b ^ length ds + positional_value b ds"
  by (simp add: positional_value_def sum.lessThan_Suc_shift del: sum.lessThan_Suc)

lemma convert_loop_positional:
  "\<forall>c\<in>set s. \<exists>d. digit_of c = Some d \<and> int d < b \<Longrightarrow>
   convert_loop b s res =
     Inr (res * b ^ length s + positional_value b (map (\<lambda>c. the (digit_of c)) s))"
proof (induction s arbitrary: res)
  case Nil
  show ?case by (simp add: positional_value_def)
next
  case (Cons c cs)
  from Cons.prems obtain d where d: "digit_of c = Some d" "int d < b" by auto
  have g: "getDigitValue c = Inr d" using d(1) by (rule getDigitValue_digit_of)
  have rest: "\<forall>c\<in>set cs. \<exists>d. digit_of c = Some d \<and> int d < b" using Cons.prems by simp
  show ?case
    using d g Cons.IH[OF rest] by (simp add: positional_value_Cons algebra_simps)
qed

text \<open>
  C3. For a non-empty digit string \<open>s\<close> and a base \<open>b\<close> with \<open>2 \<le> b \<le> 62\<close>, every
  character of \<open>s\<close> being a digit of the alphabet with a value below \<open>b\<close>,
  \<open>convertToDecimalBigInt\<close> returns the positional value of \<open>s\<close> in base \<open>b\<close>; and
  it decodes "1A" in base 40 to 76, "111" in base 2 to 7 and "213" in base 4 to 39.
\<close>

theorem decode_positional:
  "(s \<noteq> [] \<and> 2 \<le> b \<and> b \<le> 62 \<and> (\<forall>c\<in>set s. \<exists>d. digit_of c = Some d \<and> int d < b) \<longrightarrow>
      convertToDecimalBigInt s (Integer b) =
        Inr (positional_value b (map (\<lambda>c. the (digit_of c)) s)))
   \<and> convertToDecimalBigInt ''1A'' (Integer 40) = Inr 76
   \<and> convertToDecimalBigInt ''111'' (Integer 2) = Inr 7
   \<and> convertToDecimalBigInt ''213'' (Integer 4) = Inr 39"
proof -
  have ex: "convertToDecimalBigInt ''1A'' (Integer 40) = Inr 76"
    "convertToDecimalBigInt ''111'' (Integer 2) = Inr 7"
    "convertToDecimalBigInt ''213'' (Integer 4) = Inr 39"
    by code_simp+
  show ?thesis
    using ex by (auto simp: convertToDecimalBigInt_def convert_loop_positional)
qed

theorem decode_positional_witness:
  "convertToDecimalBigInt ''zZ9'' (Integer 62) = Inr 138331
   \<and> positional_value 62 (map (\<lambda>c. the (digit_of c)) ''zZ9'') = 138331"
proof -
  have "list_all (\<lambda>c. case digit_of c of None \<Rightarrow> False | Some d \<Rightarrow> int d < 62) ''zZ9''"
    by code_simp
  then have h: "\<forall>c\<in>set ''zZ9''. \<exists>d. digit_of c = Some d \<and> int d < 62"
    by (auto simp: list_all_iff split: option.splits)
  have v: "positional_value 62 (map (\<lambda>c. the (digit_of c)) ''zZ9'') = 138331"
    by code_simp
  from decode_positional[of "''zZ9''" 62] h v show ?thesis by simp
qed

section \<open>The gcd helper and exact division\<close>

lemma bigint_rem_nonneg: "0 \<le> a \<Longrightarrow> 0 < b \<Longrightarrow> bigint_rem a b = Inr (a mod b)"
  by (simp add: bigint_rem_def sgn_if)

lemma gcd_loop_eq: "0 \<le> a \<Longrightarrow> 0 \<le> b \<Longrightarrow> gcd_loop a b = Inr (gcd a b)"
proof (induction a b rule: gcd_loop.induct)
  case (1 a b)
  show ?case
  proof (cases "b = 0")
    case True
    with "1.prems" show ?thesis by simp
  next
    case False
    with "1.prems" have b: "0 < b" by simp
    have r: "bigint_rem a b = Inr (a mod b)"
      using "1.prems"(1) b by (rule bigint_rem_nonneg)
    have "gcd_loop b (a mod b) = Inr (gcd b (a mod b))"
      using "1.IH"[OF False r] b by simp
    moreover have "gcd b (a mod b) = gcd a b"
      by (metis gcd_red_int)
    ultimately show ?thesis
      using False r by simp
  qed
qed

lemma gcdBig_eq: "gcdBig a b = Inr (gcd a b)"
proof -
  have "gcdBig a b = gcd_loop \<bar>a\<bar> \<bar>b\<bar>"
    by (simp add: gcdBig_def Let_def abs_if)
  also have "\<dots> = Inr (gcd \<bar>a\<bar> \<bar>b\<bar>)"
    by (rule gcd_loop_eq) simp_all
  finally show ?thesis by simp
qed

lemma sgn_product_abs: "g \<noteq> 0 \<Longrightarrow> sgn (g * q) * sgn g * \<bar>q\<bar> = (q::int)"
proof -
  assume g: "g \<noteq> 0"
  have "sgn (g * q) * sgn g * \<bar>q\<bar> = (sgn g * sgn g) * (sgn q * \<bar>q\<bar>)"
    by (simp add: sgn_mult)
  also have "sgn g * sgn g = 1" using g by (simp add: sgn_if)
  also have "sgn q * \<bar>q\<bar> = q" by (simp add: sgn_if)
  finally show ?thesis by simp
qed

lemma bigint_div_exact: "g \<noteq> 0 \<Longrightarrow> g dvd a \<Longrightarrow> bigint_div a g = Inr (a div g)"
proof -
  assume g: "g \<noteq> 0" and d: "g dvd a"
  then obtain q where a: "a = g * q" by (auto simp: dvd_def)
  have "\<bar>a\<bar> div \<bar>g\<bar> = \<bar>q\<bar>" using g by (simp add: a abs_mult)
  then have "sgn a * sgn g * (\<bar>a\<bar> div \<bar>g\<bar>) = q"
    using sgn_product_abs[OF g, of q] by (simp add: a)
  then show ?thesis using g by (simp add: bigint_div_def a)
qed

text \<open>
  C8, as the code has it. \<open>gcdBig\<close> returns the greatest common divisor of the absolute
  values of its arguments (computed by the Euclidean loop \<open>gcd_loop\<close>); so
  \<open>gcdBig 0 x\<close> is \<open>\<bar>x\<bar>\<close>, and \<open>gcdBig 0 0\<close> is 0.
\<close>

theorem gcdBig_abs_gcd:
  "gcdBig a b = Inr (gcd \<bar>a\<bar> \<bar>b\<bar>) \<and> gcdBig 0 x = Inr \<bar>x\<bar> \<and> gcdBig 0 0 = Inr 0"
  by (simp add: gcdBig_eq)

text \<open>
  C8 as stated fails: on both arguments 0 the helper returns 0, not 1, and
  \<open>gcdBig 0 x\<close> is not \<open>x\<close> for a negative \<open>x\<close>.
\<close>

theorem gcdBig_zero_zero_counterexample:
  "gcdBig 0 0 = Inr 0 \<and> gcdBig 0 0 \<noteq> Inr 1 \<and> gcdBig 0 (- 3) = Inr 3 \<and> gcdBig 0 (- 3) \<noteq> Inr (- 3)"
  by code_simp

section \<open>Polynomial functions and the Lagrange sum\<close>














lemma lagrange_sum_node:
  assumes inj: "inj_on xs {..<k}" and m: "m < k"
  shows "lagrange_sum k xs ys (xs m) = ys m"
proof -
  have zero: "ys i * (\<Prod>j\<in>{..<k} - {i}. (xs m - xs j)) / (\<Prod>j\<in>{..<k} - {i}. (xs i - xs j)) = 0"
    if "i \<in> {..<k} - {m}" for i
  proof -
    from that m have "m \<in> {..<k} - {i}" by auto
    then have "(\<Prod>j\<in>{..<k} - {i}. (xs m - xs j)) = 0"
      by (intro prod_zero) auto
    then show ?thesis by simp
  qed
  have nz: "(\<Prod>j\<in>{..<k} - {m}. (xs m - xs j)) \<noteq> 0"
    using inj m by (auto simp: inj_on_def)
  have "lagrange_sum k xs ys (xs m) =
        ys m * (\<Prod>j\<in>{..<k} - {m}. (xs m - xs j)) / (\<Prod>j\<in>{..<k} - {m}. (xs m - xs j))
        + (\<Sum>i\<in>{..<k} - {m}. ys i * (\<Prod>j\<in>{..<k} - {i}. (xs m - xs j)) / (\<Prod>j\<in>{..<k} - {i}. (xs i - xs j)))"
    unfolding lagrange_sum_def using m by (subst sum.remove[of _ m]) auto
  also have "\<dots> = ys m"
    using nz by (simp add: sum.neutral zero)
  finally show ?thesis .
qed


section \<open>The loops of the evaluators\<close>

lemma fold_term_step:
  "fold (term_step fac pts i) js t =
     (fst t * prod_list (map (\<lambda>j. fac (px (pts ! j))) (filter (\<lambda>j. j \<noteq> i) js)),
      snd t * prod_list (map (\<lambda>j. px (pts ! i) - px (pts ! j)) (filter (\<lambda>j. j \<noteq> i) js)))"
  by (induction js arbitrary: t) (auto simp: term_step_def mult.assoc)

lemma prod_list_filter_upt:
  "prod_list (map f (filter (\<lambda>j. j \<noteq> i) [0..<k])) = (\<Prod>j\<in>{..<k} - {i}. f j)"
proof -
  have "set (filter (\<lambda>j. j \<noteq> i) [0..<k]) = {..<k} - {i}" by auto
  moreover have "distinct (filter (\<lambda>j. j \<noteq> i) [0..<k])" by simp
  ultimately show ?thesis
    using prod.distinct_set_conv_list[of "filter (\<lambda>j. j \<noteq> i) [0..<k]" f] by simp
qed

lemma lagrange_term_eq: "lagrange_term fac pts i = (term_num fac pts i, term_den pts i)"
  by (simp add: lagrange_term_def fold_term_step prod_list_filter_upt term_num_def term_den_def)

lemma term_den_zero_iff:
  "term_den pts i = 0 \<longleftrightarrow> (\<exists>j<length pts. j \<noteq> i \<and> px (pts ! j) = px (pts ! i))"
proof -
  have "term_den pts i = 0 \<longleftrightarrow> (\<exists>j\<in>{..<length pts} - {i}. px (pts ! i) = px (pts ! j))"
    by (simp add: term_den_def)
  also have "\<dots> \<longleftrightarrow> (\<exists>j\<in>{..<length pts} - {i}. px (pts ! j) = px (pts ! i))"
    by (simp only: eq_commute)
  also have "\<dots> \<longleftrightarrow> (\<exists>j<length pts. j \<noteq> i \<and> px (pts ! j) = px (pts ! i))"
    by auto
  finally show ?thesis .
qed

lemma not_distinct_term_den:
  "\<not> distinct (map px pts) \<longleftrightarrow> (\<exists>i<length pts. term_den pts i = 0)"
  by (auto simp: distinct_conv_nth term_den_zero_iff)

lemma add_term_dup: "snd t = 0 \<Longrightarrow> add_term s t = Inl DuplicateX"
  by (simp add: add_term_def)

lemma add_term_ok:
  assumes s: "snd s \<noteq> 0" and t: "snd t \<noteq> 0"
  shows "\<exists>n d. add_term s t = Inr (n, d) \<and> d \<noteq> 0 \<and> coprime n d \<and>
           real_of_int n / real_of_int d =
             real_of_int (fst s) / real_of_int (snd s) + real_of_int (fst t) / real_of_int (snd t)"
proof -
  define newNum where "newNum = fst s * snd t + fst t * snd s"
  define newDen where "newDen = snd s * snd t"
  define g where "g = gcd newNum newDen"
  have den: "newDen \<noteq> 0" using s t by (simp add: newDen_def)
  then have g0: "g \<noteq> 0" by (simp add: g_def)
  have gn: "g dvd newNum" and gd: "g dvd newDen" by (simp_all add: g_def)
  have dn: "bigint_div newNum g = Inr (newNum div g)" using g0 gn by (rule bigint_div_exact)
  have dd: "bigint_div newDen g = Inr (newDen div g)" using g0 gd by (rule bigint_div_exact)
  have res: "add_term s t = Inr (newNum div g, newDen div g)"
    using t dn dd
    by (simp add: add_term_def Let_def gcdBig_eq newNum_def[symmetric] newDen_def[symmetric] g_def[symmetric])
  have nz: "newDen div g \<noteq> 0"
    using den gd by (metis dvd_div_eq_0_iff)
  have cop: "coprime (newNum div g) (newDen div g)"
    unfolding g_def using den by (intro div_gcd_coprime) simp
  have n_eq: "newNum = g * (newNum div g)" and d_eq: "newDen = g * (newDen div g)"
    using gn gd by simp_all
  have "real_of_int (newNum div g) / real_of_int (newDen div g)
        = real_of_int (g * (newNum div g)) / real_of_int (g * (newDen div g))"
    using g0 by simp
  also have "\<dots> = real_of_int newNum / real_of_int newDen"
    using n_eq d_eq by simp
  also have "\<dots> = real_of_int (fst s) / real_of_int (snd s) + real_of_int (fst t) / real_of_int (snd t)"
    using s t by (simp add: newNum_def newDen_def field_simps)
  finally show ?thesis using res nz cop by blast
qed

lemma sum_loop_dup:
  "snd s \<noteq> 0 \<Longrightarrow> \<exists>i\<in>set is. term_den pts i = 0 \<Longrightarrow> sum_loop fac pts is s = Inl DuplicateX"
proof (induction "is" arbitrary: s)
  case Nil
  then show ?case by simp
next
  case (Cons i "is")
  show ?case
  proof (cases "term_den pts i = 0")
    case True
    then show ?thesis by (simp add: lagrange_term_eq add_term_dup)
  next
    case False
    then obtain n d where nd: "add_term s (lagrange_term fac pts i) = Inr (n, d)" "d \<noteq> 0"
      using add_term_ok[OF Cons.prems(1), of "lagrange_term fac pts i"]
      by (auto simp: lagrange_term_eq)
    from False Cons.prems(2) have "\<exists>i\<in>set is. term_den pts i = 0" by auto
    with Cons.IH[of "(n, d)"] nd show ?thesis by simp
  qed
qed

lemma sum_loop_ok:
  "snd s \<noteq> 0 \<Longrightarrow> \<forall>i\<in>set is. term_den pts i \<noteq> 0 \<Longrightarrow>
   \<exists>n d. sum_loop fac pts is s = Inr (n, d) \<and> d \<noteq> 0 \<and>
     real_of_int n / real_of_int d =
       real_of_int (fst s) / real_of_int (snd s)
       + (\<Sum>i\<leftarrow>is. real_of_int (term_num fac pts i) / real_of_int (term_den pts i))"
proof (induction "is" arbitrary: s)
  case Nil
  then show ?case by (cases s) simp
next
  case (Cons i "is")
  from Cons.prems(2) have ti: "snd (lagrange_term fac pts i) \<noteq> 0"
    by (simp add: lagrange_term_eq)
  from add_term_ok[OF Cons.prems(1) ti]
  obtain n d where nd: "add_term s (lagrange_term fac pts i) = Inr (n, d)" "d \<noteq> 0"
    "real_of_int n / real_of_int d =
       real_of_int (fst s) / real_of_int (snd s)
       + real_of_int (term_num fac pts i) / real_of_int (term_den pts i)"
    by (auto simp: lagrange_term_eq)
  from Cons.prems(2) have rest: "\<forall>i\<in>set is. term_den pts i \<noteq> 0" by simp
  from Cons.IH[of "(n, d)", OF _ rest] nd(2)
  obtain n' d' where "sum_loop fac pts is (n, d) = Inr (n', d')" "d' \<noteq> 0"
    "real_of_int n' / real_of_int d' =
       real_of_int n / real_of_int d
       + (\<Sum>i\<leftarrow>is. real_of_int (term_num fac pts i) / real_of_int (term_den pts i))"
    by auto
  with nd show ?case by (simp add: add.assoc)
qed

lemma sum_loop_invariant:
  "snd s \<noteq> 0 \<Longrightarrow> coprime (fst s) (snd s) \<Longrightarrow> sum_loop fac pts is s = Inr (n, d) \<Longrightarrow>
   d \<noteq> 0 \<and> coprime n d"
proof (induction "is" arbitrary: s)
  case Nil
  then show ?case by auto
next
  case (Cons i "is")
  show ?case
  proof (cases "term_den pts i = 0")
    case True
    with Cons.prems show ?thesis by (simp add: lagrange_term_eq add_term_dup)
  next
    case False
    then obtain n' d' where nd: "add_term s (lagrange_term fac pts i) = Inr (n', d')" "d' \<noteq> 0" "coprime n' d'"
      using add_term_ok[OF Cons.prems(1), of "lagrange_term fac pts i"]
      by (auto simp: lagrange_term_eq)
    with Cons.IH[of "(n', d')"] Cons.prems(3) show ?thesis by simp
  qed
qed

lemma sum_loop_append:
  "sum_loop fac pts (is @ js) s =
     (case sum_loop fac pts is s of Inl e \<Rightarrow> Inl e | Inr s' \<Rightarrow> sum_loop fac pts js s')"
  by (induction "is" arbitrary: s) (auto split: sum.splits)

lemma to_integer_exact:
  assumes d: "snd s \<noteq> 0" and v: "real_of_int (fst s) / real_of_int (snd s) = real_of_int v"
  shows "to_integer e s = Inr v"
proof -
  from d v have "real_of_int (fst s) = real_of_int (v * snd s)" by (simp add: field_simps)
  then have eq: "fst s = v * snd s" by (simp only: of_int_eq_iff)
  have r: "bigint_rem (fst s) (snd s) = Inr 0"
    using d by (simp add: bigint_rem_def eq abs_mult)
  have q: "bigint_div (fst s) (snd s) = Inr v"
    using bigint_div_exact[OF d, of "fst s"] d by (simp add: eq)
  show ?thesis using d r q by (simp add: to_integer_def)
qed

lemma to_integer_cases:
  "snd s \<noteq> 0 \<Longrightarrow> to_integer e s = Inl e \<or> (\<exists>v. to_integer e s = Inr v)"
  by (auto simp: to_integer_def bigint_rem_def bigint_div_def)

lemma sum_loop_duplicate:
  assumes "\<not> distinct (map px pts)"
  shows "sum_loop fac pts [0..<length pts] (0, 1) = Inl DuplicateX"
proof -
  from assms obtain i where "i < length pts" "term_den pts i = 0"
    using not_distinct_term_den by blast
  then have "\<exists>i\<in>set [0..<length pts]. term_den pts i = 0" by auto
  then show ?thesis by (intro sum_loop_dup) simp_all
qed

lemma sum_loop_distinct:
  assumes "distinct (map px pts)"
  shows "\<exists>n d. sum_loop fac pts [0..<length pts] (0, 1) = Inr (n, d) \<and> d \<noteq> 0 \<and>
           real_of_int n / real_of_int d =
             (\<Sum>i<length pts. real_of_int (term_num fac pts i) / real_of_int (term_den pts i))"
proof -
  have "\<forall>i\<in>set [0..<length pts]. term_den pts i \<noteq> 0"
    using assms not_distinct_term_den[of pts] by auto
  from sum_loop_ok[of "(0, 1)", OF _ this, of fac]
  show ?thesis by (simp add: interv_sum_list_conv_sum_set_nat lessThan_atLeast0)
qed

lemma findConstantTerm_cases:
  "pts \<noteq> [] \<Longrightarrow> distinct (map px pts) \<Longrightarrow>
   findConstantTerm pts = Inl NonIntegerConstantTerm \<or> (\<exists>v. findConstantTerm pts = Inr v)"
proof -
  assume ne: "pts \<noteq> []" and d: "distinct (map px pts)"
  from sum_loop_distinct[OF d, of "\<lambda>xj. - xj"] obtain n d
    where "sum_loop (\<lambda>xj. - xj) pts [0..<length pts] (0, 1) = Inr (n, d)" "d \<noteq> 0" by blast
  then show ?thesis
    using ne to_integer_cases[of "(n, d)" NonIntegerConstantTerm]
    by (simp add: findConstantTerm_def)
qed

lemma evaluateAt_cases:
  "distinct (map px pts) \<Longrightarrow>
   evaluateAt x0 pts = Inl NonIntegerEvaluation \<or> (\<exists>v. evaluateAt x0 pts = Inr v)"
proof -
  assume d: "distinct (map px pts)"
  from sum_loop_distinct[OF d, of "\<lambda>xj. x0 - xj"] obtain n d
    where "sum_loop (\<lambda>xj. x0 - xj) pts [0..<length pts] (0, 1) = Inr (n, d)" "d \<noteq> 0" by blast
  then show ?thesis
    using to_integer_cases[of "(n, d)" NonIntegerEvaluation]
    by (simp add: evaluateAt_def)
qed

lemma findConstantTerm_duplicate:
  "\<not> distinct (map px pts) \<Longrightarrow> findConstantTerm pts = Inl DuplicateX"
proof -
  assume d: "\<not> distinct (map px pts)"
  then have "pts \<noteq> []" by auto
  then show ?thesis using sum_loop_duplicate[OF d] by (simp add: findConstantTerm_def)
qed

lemma evaluateAt_duplicate:
  "\<not> distinct (map px pts) \<Longrightarrow> evaluateAt x0 pts = Inl DuplicateX"
proof -
  assume d: "\<not> distinct (map px pts)"
  then have "pts \<noteq> []" by auto
  then show ?thesis using sum_loop_duplicate[OF d] by (simp add: evaluateAt_def)
qed

section \<open>Duplicate abscissas and division by zero\<close>

text \<open>
  C5. On a point list with two points of equal \<open>x\<close>, \<open>findConstantTerm\<close> and
  \<open>evaluateAt\<close> fail with the duplicate-x error; and on no point list does either of
  them end in the runtime's division-by-zero error, which every \<open>/\<close> and \<open>%\<close> of the
  model raises on a zero divisor.
\<close>

theorem duplicate_x_rejected:
  "(\<not> distinct (map px points) \<longrightarrow>
      findConstantTerm points = Inl DuplicateX \<and> evaluateAt x0 points = Inl DuplicateX)
   \<and> findConstantTerm points \<noteq> Inl RangeError_DivisionByZero
   \<and> evaluateAt x0 points \<noteq> Inl RangeError_DivisionByZero"
proof (cases "distinct (map px points)")
  case False
  then show ?thesis
    by (simp add: findConstantTerm_duplicate evaluateAt_duplicate)
next
  case True
  have "findConstantTerm points \<noteq> Inl RangeError_DivisionByZero"
  proof (cases "points = []")
    case True
    then show ?thesis by (simp add: findConstantTerm_def)
  next
    case False
    from findConstantTerm_cases[OF False \<open>distinct (map px points)\<close>]
    show ?thesis by auto
  qed
  moreover have "evaluateAt x0 points \<noteq> Inl RangeError_DivisionByZero"
    using evaluateAt_cases[OF True, of x0] by auto
  ultimately show ?thesis using True by simp
qed

theorem duplicate_x_rejected_witness:
  "findConstantTerm [\<lparr>px = 1, py = 4\<rparr>, \<lparr>px = 2, py = 7\<rparr>, \<lparr>px = 1, py = 9\<rparr>] = Inl DuplicateX
   \<and> evaluateAt 5 [\<lparr>px = 1, py = 4\<rparr>, \<lparr>px = 2, py = 7\<rparr>, \<lparr>px = 1, py = 9\<rparr>] = Inl DuplicateX"
  using duplicate_x_rejected[of "[\<lparr>px = 1, py = 4\<rparr>, \<lparr>px = 2, py = 7\<rparr>, \<lparr>px = 1, py = 9\<rparr>]" 5]
  by simp

section \<open>The running sum\<close>

text \<open>
  C7, as the code has it. The state of the running sum after \<open>m\<close> passes of the outer
  loop is \<open>sum_loop fac points [0..<m] (0, 1)\<close> (by \<open>sum_loop_append\<close> the run over
  \<open>[0..<k]\<close> goes through it for \<open>m \<le> k\<close>). In \<open>findConstantTerm\<close> and in \<open>evaluateAt\<close>,
  whenever that state exists its denominator is not zero and its numerator and
  denominator are coprime. Nothing is said of the sign of the denominator.
\<close>

theorem running_sum_reduced:
  "(sum_loop (\<lambda>xj. - xj) points [0..<m] (0, 1) = Inr (n, d) \<longrightarrow> d \<noteq> 0 \<and> coprime n d)
   \<and> (sum_loop (\<lambda>xj. x0 - xj) points [0..<m] (0, 1) = Inr (n', d') \<longrightarrow> d' \<noteq> 0 \<and> coprime n' d')"
  using sum_loop_invariant[of "(0, 1)" "\<lambda>xj. - xj" points "[0..<m]" n d]
        sum_loop_invariant[of "(0, 1)" "\<lambda>xj. x0 - xj" points "[0..<m]" n' d']
  by simp

theorem running_sum_reduced_witness:
  "sum_loop (\<lambda>xj. - xj) [\<lparr>px = 1, py = 1\<rparr>, \<lparr>px = 3, py = 4\<rparr>] [0..<2] (0, 1) = Inr (1, - 2)
   \<and> sum_loop (\<lambda>xj. 2 - xj) [\<lparr>px = 1, py = 1\<rparr>, \<lparr>px = 3, py = 4\<rparr>] [0..<2] (0, 1) = Inr (- 5, - 2)
   \<and> coprime (1::int) (- 2) \<and> coprime (- 5::int) (- 2)"
proof -
  have a: "sum_loop (\<lambda>xj. - xj) [\<lparr>px = 1, py = 1\<rparr>, \<lparr>px = 3, py = 4\<rparr>] [0..<2] (0, 1) = Inr (1, - 2)"
    by code_simp
  have b: "sum_loop (\<lambda>xj. 2 - xj) [\<lparr>px = 1, py = 1\<rparr>, \<lparr>px = 3, py = 4\<rparr>] [0..<2] (0, 1) = Inr (- 5, - 2)"
    by code_simp
  from running_sum_reduced[of "[\<lparr>px = 1, py = 1\<rparr>, \<lparr>px = 3, py = 4\<rparr>]" 2 1 "- 2" 2 "- 5" "- 2"] a b
  show ?thesis by simp
qed

text \<open>
  C7 as stated fails: the denominator is not kept positive. On the points
  \<open>(1,4), (2,7), (3,12)\<close> the running sum of \<open>findConstantTerm\<close> is \<open>9 / -1\<close> after two
  passes and \<open>-3 / -1\<close> after three, and the result is still 3.
\<close>

theorem running_sum_negative_denominator_counterexample:
  "sum_loop (\<lambda>xj. - xj) [\<lparr>px = 1, py = 4\<rparr>, \<lparr>px = 2, py = 7\<rparr>, \<lparr>px = 3, py = 12\<rparr>] [0..<2] (0, 1) = Inr (9, - 1)
   \<and> sum_loop (\<lambda>xj. - xj) [\<lparr>px = 1, py = 4\<rparr>, \<lparr>px = 2, py = 7\<rparr>, \<lparr>px = 3, py = 12\<rparr>] [0..<3] (0, 1) = Inr (- 3, - 1)
   \<and> sum_loop (\<lambda>xj. 6 - xj) [\<lparr>px = 1, py = 4\<rparr>, \<lparr>px = 2, py = 7\<rparr>, \<lparr>px = 3, py = 12\<rparr>] [0..<2] (0, 1) = Inr (81, - 1)
   \<and> findConstantTerm [\<lparr>px = 1, py = 4\<rparr>, \<lparr>px = 2, py = 7\<rparr>, \<lparr>px = 3, py = 12\<rparr>] = Inr 3"
  by code_simp

section \<open>Interpolation of a polynomial and the pipeline\<close>




lemma sum_loop_lagrange:
  assumes dist: "distinct (map px pts)"
  shows "\<exists>n d. sum_loop (\<lambda>xj. x0 - xj) pts [0..<length pts] (0, 1) = Inr (n, d) \<and> d \<noteq> 0 \<and>
           real_of_int n / real_of_int d =
             lagrange_sum (length pts) (\<lambda>i. real_of_int (px (pts ! i)))
               (\<lambda>i. real_of_int (py (pts ! i))) (real_of_int x0)"
proof -
  from sum_loop_distinct[OF dist, of "\<lambda>xj. x0 - xj"] obtain n d
    where nd: "sum_loop (\<lambda>xj. x0 - xj) pts [0..<length pts] (0, 1) = Inr (n, d)" "d \<noteq> 0"
      "real_of_int n / real_of_int d =
         (\<Sum>i<length pts. real_of_int (term_num (\<lambda>xj. x0 - xj) pts i) / real_of_int (term_den pts i))"
    by blast
  have "real_of_int n / real_of_int d =
      lagrange_sum (length pts) (\<lambda>i. real_of_int (px (pts ! i)))
        (\<lambda>i. real_of_int (py (pts ! i))) (real_of_int x0)"
    unfolding nd(3) lagrange_sum_def
    by (rule sum.cong) (simp_all add: term_num_def term_den_def)
  with nd(1,2) show ?thesis by blast
qed

lemma evaluateAt_node:
  assumes dist: "distinct (map px pts)" and m: "m < length pts"
  shows "evaluateAt (px (pts ! m)) pts = Inr (py (pts ! m))"
proof -
  let ?xs = "\<lambda>i. real_of_int (px (pts ! i))"
  let ?ys = "\<lambda>i. real_of_int (py (pts ! i))"
  have inj: "inj_on ?xs {..<length pts}"
  proof (rule inj_onI)
    fix i j assume "i \<in> {..<length pts}" "j \<in> {..<length pts}" "?xs i = ?xs j"
    then have "i < length (map px pts)" "j < length (map px pts)" "map px pts ! i = map px pts ! j"
      by simp_all
    with dist show "i = j" using nth_eq_iff_index_eq[of "map px pts" i j] by simp
  qed
  from sum_loop_lagrange[OF dist, of "px (pts ! m)"] obtain n d
    where nd: "sum_loop (\<lambda>xj. px (pts ! m) - xj) pts [0..<length pts] (0, 1) = Inr (n, d)" "d \<noteq> 0"
      "real_of_int n / real_of_int d = lagrange_sum (length pts) ?xs ?ys (?xs m)"
    by blast
  have "real_of_int n / real_of_int d = ?ys m"
    unfolding nd(3) using inj m by (rule lagrange_sum_node)
  then have "to_integer NonIntegerEvaluation (n, d) = Inr (py (pts ! m))"
    using nd(2) by (intro to_integer_exact) simp_all
  moreover have "pts \<noteq> []" using m by auto
  ultimately show ?thesis using nd(1) by (simp add: evaluateAt_def)
qed




lemma verifyAllPoints_error:
  "verifyAllPoints sel ps = Inl e \<Longrightarrow> \<exists>p\<in>set ps. evaluateAt (px p) sel = Inl e"
  by (induction ps) (auto split: sum.splits if_splits)


lemma remdups_length_distinct:
  "length (remdups (map f xs)) = length xs \<longleftrightarrow> distinct (map f xs)"
  using length_remdups_eq[of "map f xs"] remdups_id_iff_distinct[of "map f xs"] by simp

lemma solve_unfold:
  assumes "keys data = Some (Keys (Some (Integer n)) (Some (Integer k)))"
    and "decode_points (entries data) [] = Inr decoded"
  shows "solve data =
     (if int (length decoded) < k then Inl InsufficientPoints
      else if \<not> distinct (map px (slice0 k (sort_key px decoded))) then Inl DuplicateSelected
      else case findConstantTerm (slice0 k (sort_key px decoded)) of
             Inl e \<Rightarrow> Inl e
           | Inr c \<Rightarrow>
               (case verifyAllPoints (slice0 k (sort_key px decoded)) (sort_key px decoded) of
                  Inl e \<Rightarrow> Inl e
                | Inr ok \<Rightarrow>
                    if ok then Inr \<lparr>constantTerm = c,
                                   selectedPoints = slice0 k (sort_key px decoded),
                                   allPoints = sort_key px decoded\<rparr>
                    else Inl VerificationFailed))"
  using assms by (simp add: solve_def Let_def remdups_length_distinct split: sum.splits)

lemma solve_success:
  assumes "solve data = Inr r"
  shows "\<exists>n k decoded. keys data = Some (Keys (Some (Integer n)) (Some (Integer k)))
     \<and> decode_points (entries data) [] = Inr decoded
     \<and> k \<le> int (length decoded)
     \<and> allPoints r = sort_key px decoded
     \<and> selectedPoints r = slice0 k (sort_key px decoded)
     \<and> distinct (map px (selectedPoints r))
     \<and> findConstantTerm (selectedPoints r) = Inr (constantTerm r)
     \<and> verifyAllPoints (selectedPoints r) (allPoints r) = Inr True"
proof -
  from assms obtain ks where ks: "keys data = Some ks"
    by (auto simp: solve_def split: option.splits)
  from assms ks obtain n where n: "keys_n ks = Some (Integer n)"
    by (auto simp: solve_def split: option.splits number.splits)
  from assms ks n obtain k where k: "keys_k ks = Some (Integer k)"
    by (auto simp: solve_def split: option.splits number.splits)
  from assms ks n k obtain decoded where dec: "decode_points (entries data) [] = Inr decoded"
    by (auto simp: solve_def split: sum.splits)
  have keys: "keys data = Some (Keys (Some (Integer n)) (Some (Integer k)))"
    using ks n k by (cases ks) simp
  from assms show ?thesis
    unfolding solve_unfold[OF keys dec]
    by (intro exI[of _ n] exI[of _ k] exI[of _ decoded])
       (auto simp: keys dec split: if_splits sum.splits)
qed



text \<open>
  C6. On every point list of pairwise distinct \<open>x\<close>, \<open>evaluateAt\<close> at the \<open>x\<close> of each
  point of the list returns the \<open>y\<close> of that point: the Lagrange sum is 1 times the
  \<open>y\<close> of the node and 0 times the others. When \<open>solve\<close> succeeds, the selected points
  have pairwise distinct \<open>x\<close>, so \<open>evaluateAt\<close> at the \<open>x\<close> of each selected point, on the
  selected points, returns the \<open>y\<close> of that point.
\<close>

theorem selected_points_reproduced:
  "(distinct (map px pts) \<longrightarrow> (\<forall>p\<in>set pts. evaluateAt (px p) pts = Inr (py p)))
   \<and> (solve data = Inr r \<longrightarrow>
        distinct (map px (selectedPoints r))
        \<and> (\<forall>p\<in>set (selectedPoints r). evaluateAt (px p) (selectedPoints r) = Inr (py p)))"
proof -
  have node: "\<forall>p\<in>set ps. evaluateAt (px p) ps = Inr (py p)" if "distinct (map px ps)" for ps
    using evaluateAt_node[OF that] by (auto simp: in_set_conv_nth)
  have "distinct (map px (selectedPoints r))" if "solve data = Inr r"
    using solve_success[OF that] by blast
  with node show ?thesis by blast
qed

theorem selected_points_reproduced_witness:
  "solve base40_input =
     Inr \<lparr>constantTerm = - 351,
          selectedPoints = [\<lparr>px = 1, py = 76\<rparr>, \<lparr>px = 2, py = 456\<rparr>, \<lparr>px = 3, py = 789\<rparr>],
          allPoints = [\<lparr>px = 1, py = 76\<rparr>, \<lparr>px = 2, py = 456\<rparr>, \<lparr>px = 3, py = 789\<rparr>]\<rparr>
   \<and> evaluateAt 1 [\<lparr>px = 1, py = 76\<rparr>, \<lparr>px = 2, py = 456\<rparr>, \<lparr>px = 3, py = 789\<rparr>] = Inr 76
   \<and> evaluateAt 2 [\<lparr>px = 1, py = 76\<rparr>, \<lparr>px = 2, py = 456\<rparr>, \<lparr>px = 3, py = 789\<rparr>] = Inr 456
   \<and> evaluateAt 3 [\<lparr>px = 1, py = 76\<rparr>, \<lparr>px = 2, py = 456\<rparr>, \<lparr>px = 3, py = 789\<rparr>] = Inr 789
   \<and> evaluateAt 2 [\<lparr>px = 2, py = 5\<rparr>, \<lparr>px = 3, py = 7\<rparr>] = Inr 5
   \<and> evaluateAt 3 [\<lparr>px = 2, py = 5\<rparr>, \<lparr>px = 3, py = 7\<rparr>] = Inr 7"
proof -
  let ?r = "\<lparr>constantTerm = - 351,
          selectedPoints = [\<lparr>px = 1, py = 76\<rparr>, \<lparr>px = 2, py = 456\<rparr>, \<lparr>px = 3, py = 789\<rparr>],
          allPoints = [\<lparr>px = 1, py = 76\<rparr>, \<lparr>px = 2, py = 456\<rparr>, \<lparr>px = 3, py = 789\<rparr>]\<rparr>"
  have s: "solve base40_input = Inr ?r"
    by code_simp
  have a: "\<forall>p\<in>set (selectedPoints ?r). evaluateAt (px p) (selectedPoints ?r) = Inr (py p)"
    using selected_points_reproduced[of "[]" base40_input ?r, THEN conjunct2] s by blast
  have b: "\<forall>p\<in>set [\<lparr>px = 2, py = 5\<rparr>, \<lparr>px = 3, py = 7\<rparr>].
      evaluateAt (px p) [\<lparr>px = 2, py = 5\<rparr>, \<lparr>px = 3, py = 7\<rparr>] = Inr (py p)"
    using selected_points_reproduced[of "[\<lparr>px = 2, py = 5\<rparr>, \<lparr>px = 3, py = 7\<rparr>]" base40_input ?r, THEN conjunct1]
    by simp
  from a b s show ?thesis by simp
qed

section \<open>The selection policy\<close>

text \<open>
  C4. For integer \<open>n\<close> and \<open>k\<close> with \<open>0 \<le> k\<close> and entries that decode, the result of
  \<open>solve\<close> is fixed by the policy. The decoded points are sorted by \<open>x\<close> ascending and
  stably (for every \<open>x\<close> value the points with that \<open>x\<close> keep the order of the decoded
  list). With fewer than \<open>k\<close> points \<open>solve\<close> fails; otherwise the selected subset is the
  first \<open>k\<close> points of the sorted list: \<open>solve\<close> fails when two of them share an \<open>x\<close>,
  the constant term is \<open>findConstantTerm\<close> of them, the verification runs with them
  against the whole sorted list, and they are the \<open>selectedPoints\<close> of the result. When
  an entry does not decode, \<open>solve\<close> fails with the error of the decoder. On the
  end-to-end example the decoded points are \<open>(1,4), (2,7), (3,12), (6,39)\<close>, the first
  three are selected, the constant term is 3, and the verification, also against
  \<open>(6,39)\<close>, succeeds.
\<close>

theorem solve_selection_policy:
  "(keys data = Some (Keys (Some (Integer n)) (Some (Integer k))) \<and> 0 \<le> k
      \<and> decode_points (entries data) [] = Inr decoded \<longrightarrow>
        sorted (map px (sort_key px decoded))
      \<and> (\<forall>v. filter (\<lambda>p. px p = v) (sort_key px decoded) = filter (\<lambda>p. px p = v) decoded)
      \<and> solve data =
          (if int (length decoded) < k then Inl InsufficientPoints
           else if \<not> distinct (map px (take (nat k) (sort_key px decoded)))
           then Inl DuplicateSelected
           else case findConstantTerm (take (nat k) (sort_key px decoded)) of
                  Inl e \<Rightarrow> Inl e
                | Inr c \<Rightarrow>
                    (case verifyAllPoints (take (nat k) (sort_key px decoded))
                            (sort_key px decoded) of
                       Inl e \<Rightarrow> Inl e
                     | Inr ok \<Rightarrow>
                         if ok then Inr \<lparr>constantTerm = c,
                                        selectedPoints = take (nat k) (sort_key px decoded),
                                        allPoints = sort_key px decoded\<rparr>
                         else Inl VerificationFailed)))
   \<and> (keys data = Some (Keys (Some (Integer n)) (Some (Integer k)))
      \<and> decode_points (entries data) [] = Inl err \<longrightarrow> solve data = Inl err)
   \<and> decode_points (entries example_input) [] =
       Inr [\<lparr>px = 1, py = 4\<rparr>, \<lparr>px = 2, py = 7\<rparr>, \<lparr>px = 3, py = 12\<rparr>, \<lparr>px = 6, py = 39\<rparr>]
   \<and> solve example_input =
       Inr \<lparr>constantTerm = 3,
            selectedPoints = [\<lparr>px = 1, py = 4\<rparr>, \<lparr>px = 2, py = 7\<rparr>, \<lparr>px = 3, py = 12\<rparr>],
            allPoints = [\<lparr>px = 1, py = 4\<rparr>, \<lparr>px = 2, py = 7\<rparr>, \<lparr>px = 3, py = 12\<rparr>, \<lparr>px = 6, py = 39\<rparr>]\<rparr>
   \<and> evaluateAt 6 [\<lparr>px = 1, py = 4\<rparr>, \<lparr>px = 2, py = 7\<rparr>, \<lparr>px = 3, py = 12\<rparr>] = Inr 39
   \<and> verifyAllPoints [\<lparr>px = 1, py = 4\<rparr>, \<lparr>px = 2, py = 7\<rparr>, \<lparr>px = 3, py = 12\<rparr>]
         [\<lparr>px = 1, py = 4\<rparr>, \<lparr>px = 2, py = 7\<rparr>, \<lparr>px = 3, py = 12\<rparr>, \<lparr>px = 6, py = 39\<rparr>] = Inr True"
proof -
  have general: "sorted (map px (sort_key px decoded))
      \<and> (\<forall>v. filter (\<lambda>p. px p = v) (sort_key px decoded) = filter (\<lambda>p. px p = v) decoded)
      \<and> solve data =
          (if int (length decoded) < k then Inl InsufficientPoints
           else if \<not> distinct (map px (take (nat k) (sort_key px decoded)))
           then Inl DuplicateSelected
           else case findConstantTerm (take (nat k) (sort_key px decoded)) of
                  Inl e \<Rightarrow> Inl e
                | Inr c \<Rightarrow>
                    (case verifyAllPoints (take (nat k) (sort_key px decoded))
                            (sort_key px decoded) of
                       Inl e \<Rightarrow> Inl e
                     | Inr ok \<Rightarrow>
                         if ok then Inr \<lparr>constantTerm = c,
                                        selectedPoints = take (nat k) (sort_key px decoded),
                                        allPoints = sort_key px decoded\<rparr>
                         else Inl VerificationFailed))"
    if keys: "keys data = Some (Keys (Some (Integer n)) (Some (Integer k)))" and k0: "0 \<le> k"
      and dec: "decode_points (entries data) [] = Inr decoded"
  proof -
    have sl: "slice0 k (sort_key px decoded) = take (nat k) (sort_key px decoded)"
      using k0 by (simp add: slice0_def)
    show ?thesis
      using solve_unfold[OF keys dec] unfolding sl by (simp add: sort_key_stable)
  qed
  have failed: "solve data = Inl err"
    if "keys data = Some (Keys (Some (Integer n)) (Some (Integer k)))"
      and "decode_points (entries data) [] = Inl err"
    using that by (simp add: solve_def)
  have e1: "decode_points (entries example_input) [] =
       Inr [\<lparr>px = 1, py = 4\<rparr>, \<lparr>px = 2, py = 7\<rparr>, \<lparr>px = 3, py = 12\<rparr>, \<lparr>px = 6, py = 39\<rparr>]"
    by code_simp
  have e2: "solve example_input =
       Inr \<lparr>constantTerm = 3,
            selectedPoints = [\<lparr>px = 1, py = 4\<rparr>, \<lparr>px = 2, py = 7\<rparr>, \<lparr>px = 3, py = 12\<rparr>],
            allPoints = [\<lparr>px = 1, py = 4\<rparr>, \<lparr>px = 2, py = 7\<rparr>, \<lparr>px = 3, py = 12\<rparr>, \<lparr>px = 6, py = 39\<rparr>]\<rparr>"
    by code_simp
  have e3: "evaluateAt 6 [\<lparr>px = 1, py = 4\<rparr>, \<lparr>px = 2, py = 7\<rparr>, \<lparr>px = 3, py = 12\<rparr>] = Inr 39"
    by code_simp
  have e4: "verifyAllPoints [\<lparr>px = 1, py = 4\<rparr>, \<lparr>px = 2, py = 7\<rparr>, \<lparr>px = 3, py = 12\<rparr>]
         [\<lparr>px = 1, py = 4\<rparr>, \<lparr>px = 2, py = 7\<rparr>, \<lparr>px = 3, py = 12\<rparr>, \<lparr>px = 6, py = 39\<rparr>] = Inr True"
    by code_simp
  from general failed e1 e2 e3 e4 show ?thesis by blast
qed

theorem solve_selection_policy_witness:
  "solve unordered_input =
     Inr \<lparr>constantTerm = 8,
          selectedPoints = [\<lparr>px = - 3, py = 5\<rparr>, \<lparr>px = 2, py = 10\<rparr>],
          allPoints = [\<lparr>px = - 3, py = 5\<rparr>, \<lparr>px = 2, py = 10\<rparr>, \<lparr>px = 7, py = 15\<rparr>]\<rparr>
   \<and> decode_points (entries unordered_input) [] =
       Inr [\<lparr>px = 2, py = 10\<rparr>, \<lparr>px = 7, py = 15\<rparr>, \<lparr>px = - 3, py = 5\<rparr>]
   \<and> sort_key px [\<lparr>px = 2, py = 10\<rparr>, \<lparr>px = 7, py = 15\<rparr>, \<lparr>px = - 3, py = 5\<rparr>] =
       [\<lparr>px = - 3, py = 5\<rparr>, \<lparr>px = 2, py = 10\<rparr>, \<lparr>px = 7, py = 15\<rparr>]
   \<and> findConstantTerm [\<lparr>px = - 3, py = 5\<rparr>, \<lparr>px = 2, py = 10\<rparr>] = Inr 8"
proof -
  let ?decoded = "[\<lparr>px = 2, py = 10\<rparr>, \<lparr>px = 7, py = 15\<rparr>, \<lparr>px = - 3, py = 5\<rparr>]"
  let ?sorted = "[\<lparr>px = - 3, py = 5\<rparr>, \<lparr>px = 2, py = 10\<rparr>, \<lparr>px = 7, py = 15\<rparr>]"
  let ?sel = "[\<lparr>px = - 3, py = 5\<rparr>, \<lparr>px = 2, py = 10\<rparr>]"
  have k: "keys unordered_input = Some (Keys (Some (Integer 3)) (Some (Integer 2)))"
    by (simp add: unordered_input_def int_keys_def)
  have d: "decode_points (entries unordered_input) [] = Inr ?decoded"
    by code_simp
  have srt: "sort_key px ?decoded = ?sorted" by code_simp
  have c: "findConstantTerm ?sel = Inr 8" by code_simp
  have v: "verifyAllPoints ?sel ?sorted = Inr True" by code_simp
  have tk: "take (nat 2) ?sorted = ?sel" by (simp add: numeral_2_eq_2)
  have h: "keys unordered_input = Some (Keys (Some (Integer 3)) (Some (Integer 2))) \<and> (0::int) \<le> 2
      \<and> decode_points (entries unordered_input) [] = Inr ?decoded"
    using k d by simp
  note eq = solve_selection_policy[of unordered_input 3 2 ?decoded, THEN conjunct1,
      THEN mp, OF h, THEN conjunct2, THEN conjunct2]
  have "solve unordered_input =
      Inr \<lparr>constantTerm = 8, selectedPoints = ?sel, allPoints = ?sorted\<rparr>"
    unfolding eq srt tk c v by simp
  with d srt c show ?thesis by simp
qed

section \<open>Verification against all points\<close>




section \<open>Validation of the counts\<close>

lemma convert_loop_error:
  "convert_loop b s res = Inl e \<Longrightarrow> e \<noteq> MissingKeys \<and> e \<noteq> KeysNotIntegers"
  by (induction s arbitrary: res)
     (auto simp: getDigitValue_def Let_def split: sum.splits if_splits)

lemma convertToDecimalBigInt_error:
  "convertToDecimalBigInt val base = Inl e \<Longrightarrow> e \<noteq> MissingKeys \<and> e \<noteq> KeysNotIntegers"
  using convert_loop_error[of _ val 0 e]
  by (auto simp: convertToDecimalBigInt_def split: number.splits if_splits)

lemma decode_points_error:
  "decode_points es acc = Inl e \<Longrightarrow> e \<noteq> MissingKeys \<and> e \<noteq> KeysNotIntegers"
proof (induction es arbitrary: acc)
  case Nil
  then show ?case by simp
next
  case (Cons a es)
  then show ?case
    using convertToDecimalBigInt_error[of _ _ e]
    by (auto split: number.splits option.splits sum.splits)
qed

lemma findConstantTerm_error:
  "distinct (map px pts) \<Longrightarrow> findConstantTerm pts = Inl e \<Longrightarrow>
   e = NoPoints \<or> e = NonIntegerConstantTerm"
proof (cases "pts = []")
  case True
  assume "findConstantTerm pts = Inl e"
  with True show ?thesis by (simp add: findConstantTerm_def)
next
  case False
  assume "distinct (map px pts)" "findConstantTerm pts = Inl e"
  with findConstantTerm_cases[OF False] show ?thesis by auto
qed

lemma verifyAllPoints_distinct_error:
  assumes "distinct (map px sel)" "verifyAllPoints sel ps = Inl e"
  shows "e = NonIntegerEvaluation"
proof -
  from verifyAllPoints_error[OF assms(2)] obtain p :: point
    where "evaluateAt (px p) sel = Inl e" by blast
  with evaluateAt_cases[OF assms(1), of "px p"] show ?thesis by auto
qed

lemma solve_no_parse_error:
  assumes keys: "keys data = Some (Keys (Some (Integer n)) (Some (Integer k)))"
  shows "solve data \<noteq> Inl MissingKeys \<and> solve data \<noteq> Inl KeysNotIntegers"
proof (cases "decode_points (entries data) []")
  case (Inl e)
  with keys have "solve data = Inl e" by (simp add: solve_def)
  with decode_points_error[OF Inl] show ?thesis by simp
next
  case (Inr decoded)
  let ?sel = "slice0 k (sort_key px decoded)"
  show ?thesis
  proof (cases "distinct (map px ?sel)")
    case False
    then show ?thesis unfolding solve_unfold[OF keys Inr] by simp
  next
    case True
    show ?thesis
      unfolding solve_unfold[OF keys Inr]
      using findConstantTerm_error[OF True] verifyAllPoints_distinct_error[OF True]
      by (auto split: sum.splits)
  qed
qed

text \<open>
  C9, as the code has it. \<open>solve\<close> fails with the missing-keys error when \<open>keys\<close> is
  absent and with the not-integers error when \<open>keys.n\<close> or \<open>keys.k\<close> is absent or not an
  integer, whatever the entries are, so before any point is decoded. With integer
  \<open>n\<close> and \<open>k\<close> of any sign neither error occurs, and the value of \<open>n\<close> has no effect
  on the result. For \<open>k = 0\<close>, once all points are decoded, \<open>solve\<close> fails with the
  no-points error of \<open>findConstantTerm\<close>.
\<close>

theorem parse_checks_integers_only:
  "(keys data = None \<longrightarrow> solve data = Inl MissingKeys)
   \<and> (keys data = Some (Keys kn kk)
      \<and> (kn = None \<or> kn = Some NonInteger \<or> kk = None \<or> kk = Some NonInteger)
      \<longrightarrow> solve data = Inl KeysNotIntegers)
   \<and> (keys data = Some (Keys (Some (Integer n)) (Some (Integer k)))
      \<longrightarrow> solve data \<noteq> Inl MissingKeys \<and> solve data \<noteq> Inl KeysNotIntegers
        \<and> solve (data\<lparr>keys := Some (Keys (Some (Integer n')) (Some (Integer k)))\<rparr>) = solve data)
   \<and> (keys data = Some (Keys (Some (Integer n)) (Some (Integer 0)))
      \<and> decode_points (entries data) [] = Inr decoded
      \<longrightarrow> solve data = Inl NoPoints)"
proof (intro conjI impI)
  assume "keys data = None"
  then show "solve data = Inl MissingKeys" by (simp add: solve_def)
next
  assume "keys data = Some (Keys kn kk)
      \<and> (kn = None \<or> kn = Some NonInteger \<or> kk = None \<or> kk = Some NonInteger)"
  then show "solve data = Inl KeysNotIntegers"
    by (auto simp: solve_def split: option.splits number.splits)
next
  assume k: "keys data = Some (Keys (Some (Integer n)) (Some (Integer k)))"
  from solve_no_parse_error[OF k] show "solve data \<noteq> Inl MissingKeys" by simp
  from solve_no_parse_error[OF k] show "solve data \<noteq> Inl KeysNotIntegers" by simp
  from k show "solve (data\<lparr>keys := Some (Keys (Some (Integer n')) (Some (Integer k)))\<rparr>) = solve data"
    by (simp add: solve_def)
next
  assume h: "keys data = Some (Keys (Some (Integer n)) (Some (Integer 0)))
      \<and> decode_points (entries data) [] = Inr decoded"
  have "slice0 0 (sort_key px decoded) = []" by (simp add: slice0_def)
  with h show "solve data = Inl NoPoints"
    by (simp add: solve_unfold[of data n 0 decoded] findConstantTerm_def)
qed

theorem parse_checks_integers_only_witness:
  "solve \<lparr>keys = None, entries = []\<rparr> = Inl MissingKeys
   \<and> solve \<lparr>keys = Some (Keys (Some (Integer 3)) (Some NonInteger)), entries = []\<rparr> = Inl KeysNotIntegers
   \<and> solve zero_k_input = Inl NoPoints
   \<and> solve (zero_k_input\<lparr>keys := Some (Keys (Some (Integer (- 7))) (Some (Integer 0)))\<rparr>) = Inl NoPoints"
proof -
  have k: "keys zero_k_input = Some (Keys (Some (Integer 3)) (Some (Integer 0)))"
    by (simp add: zero_k_input_def int_keys_def)
  have d: "decode_points (entries zero_k_input) [] =
      Inr [\<lparr>px = 1, py = 1\<rparr>, \<lparr>px = 2, py = 2\<rparr>, \<lparr>px = 3, py = 3\<rparr>]" by code_simp
  have a: "solve \<lparr>keys = None, entries = []\<rparr> = Inl MissingKeys"
    using parse_checks_integers_only[of "\<lparr>keys = None, entries = []\<rparr>"] by simp
  have b: "solve \<lparr>keys = Some (Keys (Some (Integer 3)) (Some NonInteger)), entries = []\<rparr> = Inl KeysNotIntegers"
    using parse_checks_integers_only[of "\<lparr>keys = Some (Keys (Some (Integer 3)) (Some NonInteger)), entries = []\<rparr>"
        "Some (Integer 3)" "Some NonInteger"] by simp
  have c: "solve zero_k_input = Inl NoPoints"
    using parse_checks_integers_only[of zero_k_input _ _ 3 0 _ "[\<lparr>px = 1, py = 1\<rparr>, \<lparr>px = 2, py = 2\<rparr>, \<lparr>px = 3, py = 3\<rparr>]"] k d
    by simp
  have e: "solve (zero_k_input\<lparr>keys := Some (Keys (Some (Integer (- 7))) (Some (Integer 0)))\<rparr>) = solve zero_k_input"
    using parse_checks_integers_only[of zero_k_input _ _ 3 0 "- 7"] k by simp
  from a b c e show ?thesis by simp
qed

text \<open>
  C9 as stated fails: with \<open>n = 0\<close> and \<open>k = -1\<close> the three points
  \<open>(1,1), (2,2), (3,3)\<close> are accepted, and \<open>solve\<close> returns a result.
\<close>

theorem nonpositive_counts_counterexample:
  "solve negative_k_input =
     Inr \<lparr>constantTerm = 0,
          selectedPoints = [\<lparr>px = 1, py = 1\<rparr>, \<lparr>px = 2, py = 2\<rparr>],
          allPoints = [\<lparr>px = 1, py = 1\<rparr>, \<lparr>px = 2, py = 2\<rparr>, \<lparr>px = 3, py = 3\<rparr>]\<rparr>
   \<and> keys negative_k_input = Some (Keys (Some (Integer 0)) (Some (Integer (- 1))))"
  by code_simp

section \<open>The evaluators on the empty list\<close>

text \<open>
  C10. On the empty point list \<open>evaluateAt\<close> returns 0 for every \<open>x0\<close>, without an
  error, and \<open>findConstantTerm\<close> fails with the "No points provided" error.
\<close>

theorem empty_points_disagree:
  "evaluateAt x0 [] = Inr 0 \<and> findConstantTerm [] = Inl NoPoints"
  by (simp add: evaluateAt_def findConstantTerm_def)

end
